theory Spec2Isabelle
  imports Complex_Main "HOL-Library.Word"
begin

unbundle bit_operations_syntax

section \<open>Byte sequences as Python sees them\<close>

text \<open>
  The advertising payload handed to \<^verbatim>\<open>parse_ruuvi_data\<close> is a sequence of bytes; an
  element read is an integer in 0..255 (\<open>unat\<close> of the byte). Python's floats are
  modelled by exact real arithmetic: the scale factors 0.005 and 0.0025 are the
  decimal fractions, and no rounding is modelled.
\<close>

type_synonym byte = "8 word"
type_synonym bytes = "byte list"

datatype py_error = IndexError

text \<open>
  \<^verbatim>\<open>xs[a:b]\<close> with non-negative bounds: the slice is clamped to the bytes present and is
  empty when \<open>b \<le> a\<close>; it never raises.
\<close>

definition py_slice :: "'a list \<Rightarrow> nat \<Rightarrow> nat \<Rightarrow> 'a list" where
  "py_slice xs a b = take (b - a) (drop a xs)"

text \<open>\<^verbatim>\<open>xs[k]\<close> with a non-negative index: IndexError when out of range.\<close>

definition py_index :: "'a list \<Rightarrow> nat \<Rightarrow> py_error + 'a" where
  "py_index xs k = (if k < length xs then Inr (xs ! k) else Inl IndexError)"

text \<open>\<^verbatim>\<open>int.from_bytes(bs, 'big')\<close>: unsigned, most significant byte first, 0 for no bytes.\<close>

definition from_bytes_big :: "bytes \<Rightarrow> nat" where
  "from_bytes_big bs = foldl (\<lambda>acc b. acc * 256 + unat b) 0 bs"

section \<open>The scanner object and its diagnostics\<close>

text \<open>The dictionary stored in \<^verbatim>\<open>latest_data\<close> always has the same three keys.\<close>

record sample =
  temperature :: real
  humidity :: real
  pressure :: real

text \<open>The two attributes of \<^verbatim>\<open>BLEScanner\<close> that the program reads and writes.\<close>

record scanner =
  latest_data :: "sample option"
  data_received :: bool

text \<open>Each \<^verbatim>\<open>print\<close> of the scanner, as an event of the output trace.\<close>

datatype log_line =
    FoundRuuviTag bytes
  | ScanComplete
  | ParsingData bytes
  | FoundMfgData
  | FoundFormat5
  | ParsedData sample
  | NoRuuviData
  | ErrorParsing py_error

section \<open>parse\_ruuvi\_data\<close>

definition RUUVI_DATA_FORMAT :: byte where
  "RUUVI_DATA_FORMAT = 5"

text \<open>
  Lines 63 to 74, the format 5 fields of the manufacturer data. The temperature is
  scaled first and compared with 32767 afterwards, as the source does.
\<close>

definition format5 :: "bytes \<Rightarrow> sample" where
  "format5 mfg_data =
     (let temp = real (from_bytes_big (py_slice mfg_data 3 5)) * 0.005;
          temp = (if temp > 32767 then temp - 65536 else temp);
          humidity = real (from_bytes_big (py_slice mfg_data 5 7)) * 0.0025;
          pressure = from_bytes_big (py_slice mfg_data 7 9) + 50000
      in \<lparr>temperature = temp, humidity = humidity, pressure = real pressure / 100\<rparr>)"

text \<open>
  One pass through the body of the \<^verbatim>\<open>while\<close> loop (lines 53 to 77) at offset \<open>i\<close>,
  which the loop condition has checked to be inside the payload: the body returns a
  sample, raises, or falls through to the increment of the offset.
\<close>

datatype step = Return sample | Raise py_error | Continue

definition ruuvi_iter :: "bytes \<Rightarrow> nat \<Rightarrow> log_line list \<times> step" where
  "ruuvi_iter data i =
     (if i + 1 < length data then
        let type_id = data ! (i + 1) in
        if type_id = 0xFF then
          let mfg_data = py_slice data (i + 2) (i + unat (data ! i) + 1) in
          if py_slice mfg_data 0 2 = [0x99, 0x04] then
            (case py_index mfg_data 2 of
               Inl e \<Rightarrow> ([FoundMfgData], Raise e)
             | Inr fmt \<Rightarrow>
                 if fmt = RUUVI_DATA_FORMAT then
                   let s = format5 mfg_data
                   in ([FoundMfgData, FoundFormat5, ParsedData s], Return s)
                 else ([FoundMfgData], Continue))
          else ([], Continue)
        else ([], Continue)
      else ([], Continue))"

text \<open>Line 78: \<^verbatim>\<open>i += length + 1\<close>, with \<^verbatim>\<open>length = data[i]\<close>.\<close>

definition next_offset :: "bytes \<Rightarrow> nat \<Rightarrow> nat" where
  "next_offset data i = i + unat (data ! i) + 1"

text \<open>
  The loop from offset \<open>i\<close>: the trace of the passes, and how the loop was left, by a
  \<^verbatim>\<open>return\<close> with a sample (\<open>Inr (Some s)\<close>), by an exception (\<open>Inl e\<close>) or by its
  condition (\<open>Inr None\<close>).
\<close>

function ruuvi_loop :: "bytes \<Rightarrow> nat \<Rightarrow> log_line list \<times> (py_error + sample option)" where
  "ruuvi_loop data i =
     (if i < length data then
        (case ruuvi_iter data i of
           (lg, Return s) \<Rightarrow> (lg, Inr (Some s))
         | (lg, Raise e) \<Rightarrow> (lg, Inl e)
         | (lg, Continue) \<Rightarrow>
             (case ruuvi_loop data (next_offset data i) of (lg', r) \<Rightarrow> (lg @ lg', r)))
      else ([], Inr None))"
  by pat_completeness auto
termination
  by (relation "measure (\<lambda>(data, i). length data - i)") (auto simp: next_offset_def)

declare ruuvi_loop.simps [simp del]

text \<open>
  The same loop with nothing assumed about its termination: \<open>None\<close> is a loop that
  never leaves.
\<close>

partial_function (option) ruuvi_while ::
  "bytes \<Rightarrow> nat \<Rightarrow> (log_line list \<times> (py_error + sample option)) option" where
  "ruuvi_while data i =
     (if i < length data then
        (case ruuvi_iter data i of
           (lg, Return s) \<Rightarrow> Some (lg, Inr (Some s))
         | (lg, Raise e) \<Rightarrow> Some (lg, Inl e)
         | (lg, Continue) \<Rightarrow>
             Option.bind (ruuvi_while data (next_offset data i))
               (\<lambda>(lg', r). Some (lg @ lg', r)))
      else Some ([], Inr None))"

declare ruuvi_while.simps [code]

text \<open>
  The method: line 48 prints the payload, the \<^verbatim>\<open>try\<close> block runs the loop, and the
  handler of line 80 turns every exception into a printed line. Only the \<^verbatim>\<open>return\<close>
  inside the loop is preceded by the two assignments to the scanner.
\<close>

definition parse_ruuvi_data :: "scanner \<Rightarrow> bytes \<Rightarrow> scanner \<times> log_line list" where
  "parse_ruuvi_data self data =
     (case ruuvi_loop data 0 of
        (lg, Inr (Some s)) \<Rightarrow>
          (self\<lparr>latest_data := Some s, data_received := True\<rparr>, ParsingData data # lg)
      | (lg, Inr None) \<Rightarrow> (self, ParsingData data # lg @ [NoRuuviData])
      | (lg, Inl e) \<Rightarrow> (self, ParsingData data # lg @ [ErrorParsing e]))"

section \<open>The AD structures of a payload\<close>

text \<open>
  The payload is a sequence of AD structures: a length byte, a type byte and the value
  bytes that follow, up to the number the length byte declares or to the end of the
  payload. The structures start at the offsets the walk visits.
\<close>

function ad_offsets :: "bytes \<Rightarrow> nat \<Rightarrow> nat list" where
  "ad_offsets data i = (if i < length data then i # ad_offsets data (next_offset data i) else [])"
  by pat_completeness auto
termination
  by (relation "measure (\<lambda>(data, i). length data - i)") (auto simp: next_offset_def)

declare ad_offsets.simps [simp del]

definition ad_type :: "bytes \<Rightarrow> nat \<Rightarrow> byte option" where
  "ad_type data i = (if i + 1 < length data then Some (data ! (i + 1)) else None)"

definition ad_value :: "bytes \<Rightarrow> nat \<Rightarrow> bytes" where
  "ad_value data i = take (unat (data ! i) - 1) (drop (i + 2) data)"

text \<open>The structure at offset \<open>i\<close> declares more bytes than the payload holds.\<close>

definition overruns :: "bytes \<Rightarrow> nat \<Rightarrow> bool" where
  "overruns data i = (length data < next_offset data i)"

text \<open>Manufacturer specific data (type 0xFF) whose value starts with the vendor ID 0x99 0x04.\<close>

definition ruuvi_vendor :: "bytes \<Rightarrow> nat \<Rightarrow> bool" where
  "ruuvi_vendor data i = (ad_type data i = Some 0xFF \<and> take 2 (ad_value data i) = [0x99, 0x04])"

section \<open>ble\_irq\<close>

definition IRQ_SCAN_RESULT :: int where
  "IRQ_SCAN_RESULT = 5"

definition IRQ_SCAN_DONE :: int where
  "IRQ_SCAN_DONE = 6"

text \<open>The tuple that comes with a scan result.\<close>

record scan_result =
  addr_type :: int
  addr :: bytes
  adv_type :: int
  rssi :: int
  adv_data :: bytes

text \<open>\<^verbatim>\<open>'%02x' % i\<close> for a byte: two lower-case hexadecimal digits.\<close>

definition hex_digit :: "nat \<Rightarrow> char" where
  "hex_digit n = ''0123456789abcdef'' ! (n mod 16)"

definition fmt_02x :: "byte \<Rightarrow> string" where
  "fmt_02x b = [hex_digit (unat b div 16), hex_digit (unat b mod 16)]"

text \<open>\<^verbatim>\<open>sep.join(xs)\<close>.\<close>

fun join :: "string \<Rightarrow> string list \<Rightarrow> string" where
  "join sep [] = []"
| "join sep [x] = x"
| "join sep (x # y # ys) = x @ sep @ join sep (y # ys)"

text \<open>\<^verbatim>\<open>str.lower\<close> on text of the ASCII range: the 26 capital letters change.\<close>

definition lower_char :: "char \<Rightarrow> char" where
  "lower_char c =
     (case map_of (zip ''ABCDEFGHIJKLMNOPQRSTUVWXYZ'' ''abcdefghijklmnopqrstuvwxyz'') c of
        Some d \<Rightarrow> d
      | None \<Rightarrow> c)"

definition lower :: "string \<Rightarrow> string" where
  "lower s = map lower_char s"

text \<open>
  The callback. \<open>RUUVI_MAC\<close> comes from the configuration module, which is a parameter
  here. Events other than the two named ones leave no trace.
\<close>

definition ble_irq :: "string \<Rightarrow> scanner \<Rightarrow> int \<Rightarrow> scan_result \<Rightarrow> scanner \<times> log_line list" where
  "ble_irq RUUVI_MAC self event data =
     (if event = IRQ_SCAN_RESULT then
        let a = join '':'' (map fmt_02x (addr data)) in
        if lower a = lower RUUVI_MAC then
          (case parse_ruuvi_data self (adv_data data) of
             (self', lg) \<Rightarrow> (self', FoundRuuviTag (adv_data data) # lg))
        else (self, [])
      else if event = IRQ_SCAN_DONE then (self, [ScanComplete])
      else (self, []))"

section \<open>The request handler of start\_webserver\<close>

text \<open>
  The program runs on MicroPython only (it imports \<^verbatim>\<open>machine\<close>, \<^verbatim>\<open>bluetooth\<close>,
  \<^verbatim>\<open>network\<close> and \<^verbatim>\<open>micropython\<close>), where a dictionary is a hash table that keeps no
  insertion order. The hash of a string is the djb2 hash computed in 32-bit arithmetic,
  cut to its 16 low bits and never 0.
\<close>

definition qstr_compute_hash :: "string \<Rightarrow> nat" where
  "qstr_compute_hash s =
     (let hash = foldl (\<lambda>h c. ((h * 33) mod 2 ^ 32) XOR of_char c) 5381 s mod 2 ^ 16
      in if hash = 0 then 1 else hash)"

text \<open>
  The slot for a key: the search starts at the position given and goes on, wrapping
  round, to the first slot that is free or holds the key; it gives up after a full turn.
\<close>

fun mp_map_probe :: "('k \<times> 'v) option list \<Rightarrow> 'k \<Rightarrow> nat \<Rightarrow> nat \<Rightarrow> nat option" where
  "mp_map_probe table key pos 0 = None"
| "mp_map_probe table key pos (Suc n) =
     (case table ! pos of
        None \<Rightarrow> Some pos
      | Some kv \<Rightarrow>
          if fst kv = key then Some pos
          else mp_map_probe table key ((pos + 1) mod length table) n)"

text \<open>
  Storing an item: the search starts at the hash of the key modulo the number of slots.
  A table with no slot left would be enlarged, which a literal never needs: it has as
  many slots as items. That case leaves the table as it is here.
\<close>

definition mp_map_store ::
  "('k \<Rightarrow> nat) \<Rightarrow> ('k \<times> 'v) option list \<Rightarrow> 'k \<times> 'v \<Rightarrow> ('k \<times> 'v) option list" where
  "mp_map_store hash table kv =
     (case mp_map_probe table (fst kv) (hash (fst kv) mod length table) (length table) of
        Some pos \<Rightarrow> table[pos := Some kv]
      | None \<Rightarrow> table)"

text \<open>
  A dictionary literal with string keys: a table of as many slots as items, the items
  stored in the order they are written; the result is the items in the order of the
  slots, which is the order in which the dictionary is iterated and printed.
\<close>

definition dict_literal :: "(string \<times> 'v) list \<Rightarrow> (string \<times> 'v) list" where
  "dict_literal items =
     List.map_filter (\<lambda>slot. slot)
       (foldl (mp_map_store qstr_compute_hash) (replicate (length items) None) items)"

text \<open>Lines 153 to 157: the response dictionary, a literal of three items.\<close>

definition response :: "scanner \<Rightarrow> (string \<times> real option) list" where
  "response scanner =
     dict_literal
       [(''temperature'', case latest_data scanner of Some d \<Rightarrow> Some (temperature d) | None \<Rightarrow> None),
        (''humidity'', case latest_data scanner of Some d \<Rightarrow> Some (humidity d) | None \<Rightarrow> None),
        (''pressure'', case latest_data scanner of Some d \<Rightarrow> Some (pressure d) | None \<Rightarrow> None)]"

text \<open>
  \<^verbatim>\<open>json.dumps\<close> of such a dictionary: the items in the order of iteration, with the
  separators \<^verbatim>\<open>", "\<close> and \<^verbatim>\<open>": "\<close>; \<^verbatim>\<open>None\<close> is written \<^verbatim>\<open>null\<close>; the text of a float is
  left to the parameter \<open>float_repr\<close>.
\<close>

definition json_item :: "(real \<Rightarrow> string) \<Rightarrow> string \<times> real option \<Rightarrow> string" where
  \<open>json_item float_repr kv =
     ''"'' @ fst kv @ ''": '' @ (case snd kv of None \<Rightarrow> ''null'' | Some x \<Rightarrow> float_repr x)\<close>

definition json_dumps :: "(real \<Rightarrow> string) \<Rightarrow> (string \<times> real option) list \<Rightarrow> string" where
  "json_dumps float_repr d = ''{'' @ join '', '' (map (json_item float_repr) d) @ ''}''"

text \<open>The decimal text of a length, as the f-string writes it.\<close>

function str_nat :: "nat \<Rightarrow> string" where
  "str_nat n =
     (if n < 10 then [''0123456789'' ! n]
      else str_nat (n div 10) @ [''0123456789'' ! (n mod 10)])"
  by pat_completeness auto
termination
  by (relation "measure id") auto

declare str_nat.simps [simp del]

definition crlf :: string where
  "crlf = [CHR 0x0D, CHR 0x0A]"

text \<open>Lines 159 and 160.\<close>

definition response_str :: "(real \<Rightarrow> string) \<Rightarrow> scanner \<Rightarrow> string" where
  "response_str float_repr scanner =
     (let response_json = json_dumps float_repr (response scanner)
      in ''HTTP/1.0 200 OK'' @ crlf @
         ''Content-Type: application/json'' @ crlf @
         ''Content-Length: '' @ str_nat (length response_json) @ crlf @
         ''Access-Control-Allow-Origin: *'' @ crlf @ crlf @
         response_json)"

text \<open>
  What the socket calls of one pass of the server loop do: \<^verbatim>\<open>accept\<close> times out, some
  call between \<^verbatim>\<open>accept\<close> and \<^verbatim>\<open>close\<close> raises, or the client is served.
\<close>

datatype socket_io = AcceptTimeout | IoFailure | IoOk

text \<open>
  One pass of the server loop over the scanner, applied to the scanner as the callbacks
  have left it when line 148 reads it: the text sent, if any, and the scanner afterwards.
  The only assignment to the scanner is the one of line 165, reached when no call has
  raised. The heartbeat of lines 126 to 134 reads \<^verbatim>\<open>data_received\<close> and drives the LED;
  it writes nothing of the scanner and is left out.
\<close>

definition serve :: "(real \<Rightarrow> string) \<Rightarrow> scanner \<Rightarrow> socket_io \<Rightarrow> string option \<times> scanner" where
  "serve float_repr scanner io =
     (case io of
        AcceptTimeout \<Rightarrow> (None, scanner)
      | IoFailure \<Rightarrow> (None, scanner)
      | IoOk \<Rightarrow> (Some (response_str float_repr scanner), scanner\<lparr>data_received := False\<rparr>))"

section \<open>Facts about the helpers and the loop\<close>

lemma from_bytes_big_snoc:
  "from_bytes_big (bs @ [b]) = from_bytes_big bs * 256 + unat b"
  by (simp add: from_bytes_big_def)

lemma from_bytes_big_bound: "from_bytes_big bs < 256 ^ length bs"
proof (induction bs rule: rev_induct)
  case Nil
  show ?case by (simp add: from_bytes_big_def)
next
  case (snoc b bs)
  have "unat b < 256" using unsigned_less [of b, where ?'a = nat] by simp
  with snoc show ?case by (simp add: from_bytes_big_snoc)
qed

lemma from_bytes_big_pair: "length bs \<le> 2 \<Longrightarrow> from_bytes_big bs < 65536"
proof -
  assume "length bs \<le> 2"
  then have "(256::nat) ^ length bs \<le> 256 ^ 2" by (intro power_increasing) auto
  with from_bytes_big_bound [of bs] show ?thesis by simp
qed

lemma length_py_slice: "length (py_slice xs a b) \<le> b - a"
  by (simp add: py_slice_def)

lemma format5_temperature_unsigned:
  "temperature (format5 mfg_data) = real (from_bytes_big (py_slice mfg_data 3 5)) * 0.005"
proof -
  have "length (py_slice mfg_data 3 5) \<le> 2" using length_py_slice [of mfg_data 3 5] by simp
  then have "from_bytes_big (py_slice mfg_data 3 5) < 65536" by (rule from_bytes_big_pair)
  then have "real (from_bytes_big (py_slice mfg_data 3 5)) * 0.005 \<le> 32767" by simp
  then show ?thesis by (simp add: format5_def Let_def)
qed

lemma mfg_data_ad_value:
  "py_slice data (i + 2) (i + unat (data ! i) + 1) = ad_value data i"
  by (simp add: py_slice_def ad_value_def)

lemma py_slice_prefix: "py_slice xs 0 n = take n xs"
  by (simp add: py_slice_def)

lemma ruuvi_iter_vendor:
  "ruuvi_iter data i =
     (if ruuvi_vendor data i then
        (case py_index (ad_value data i) 2 of
           Inl e \<Rightarrow> ([FoundMfgData], Raise e)
         | Inr fmt \<Rightarrow>
             if fmt = 5 then
               ([FoundMfgData, FoundFormat5, ParsedData (format5 (ad_value data i))],
                Return (format5 (ad_value data i)))
             else ([FoundMfgData], Continue))
      else ([], Continue))"
  unfolding ruuvi_iter_def mfg_data_ad_value py_slice_prefix
  by (simp add: ruuvi_vendor_def ad_type_def RUUVI_DATA_FORMAT_def Let_def split: sum.splits)

lemma ruuvi_loop_end: "length data \<le> i \<Longrightarrow> ruuvi_loop data i = ([], Inr None)"
  by (simp add: ruuvi_loop.simps)

lemma ruuvi_loop_step:
  "i < length data \<Longrightarrow>
   ruuvi_loop data i =
     (case ruuvi_iter data i of
        (lg, Return s) \<Rightarrow> (lg, Inr (Some s))
      | (lg, Raise e) \<Rightarrow> (lg, Inl e)
      | (lg, Continue) \<Rightarrow>
          (case ruuvi_loop data (next_offset data i) of (lg', r) \<Rightarrow> (lg @ lg', r)))"
  by (subst ruuvi_loop.simps) simp

lemma ruuvi_loop_not_vendor:
  "i < length data \<Longrightarrow> \<not> ruuvi_vendor data i \<Longrightarrow>
   ruuvi_loop data i = ruuvi_loop data (next_offset data i)"
  by (simp add: ruuvi_loop_step ruuvi_iter_vendor split: prod.splits)

lemma ruuvi_loop_no_vendor:
  "\<forall>j \<in> set (ad_offsets data i). \<not> ruuvi_vendor data j \<Longrightarrow> ruuvi_loop data i = ([], Inr None)"
proof (induction data i rule: ruuvi_loop.induct)
  case (1 data i)
  show ?case
  proof (cases "i < length data")
    case False
    then show ?thesis by (simp add: ruuvi_loop_end)
  next
    case True
    from "1.prems" True have nv: "\<not> ruuvi_vendor data i"
      and rest: "\<forall>j \<in> set (ad_offsets data (next_offset data i)). \<not> ruuvi_vendor data j"
      by (subst (asm) ad_offsets.simps, simp)+
    from nv have it: "ruuvi_iter data i = ([], Continue)" by (simp add: ruuvi_iter_vendor)
    have "ruuvi_loop data (next_offset data i) = ([], Inr None)"
      using "1.IH" [OF True it [symmetric] refl rest] .
    with True nv show ?thesis by (simp add: ruuvi_loop_not_vendor)
  qed
qed

lemma ruuvi_loop_sample:
  "snd (ruuvi_loop data i) = Inr (Some s) \<Longrightarrow>
   \<exists>j \<in> set (ad_offsets data i).
     ruuvi_vendor data j \<and> py_index (ad_value data j) 2 = Inr 5 \<and> s = format5 (ad_value data j)"
proof (induction data i rule: ruuvi_loop.induct)
  case (1 data i)
  show ?case
  proof (cases "i < length data")
    case False
    with "1.prems" show ?thesis by (simp add: ruuvi_loop_end)
  next
    case True
    have offs: "ad_offsets data i = i # ad_offsets data (next_offset data i)"
      using True by (subst ad_offsets.simps) simp
    obtain lg st where it: "ruuvi_iter data i = (lg, st)" by (cases "ruuvi_iter data i")
    show ?thesis
    proof (cases st)
      case (Return s')
      with it "1.prems" True have "s' = s" by (simp add: ruuvi_loop_step)
      with it Return have "ruuvi_vendor data i \<and> py_index (ad_value data i) 2 = Inr 5
          \<and> s = format5 (ad_value data i)"
        by (auto simp: ruuvi_iter_vendor split: if_splits sum.splits)
      then show ?thesis by (simp add: offs)
    next
      case (Raise e)
      with it "1.prems" True show ?thesis by (simp add: ruuvi_loop_step)
    next
      case Continue
      with it "1.prems" True
      have "snd (ruuvi_loop data (next_offset data i)) = Inr (Some s)"
        by (simp add: ruuvi_loop_step split: prod.splits)
      from "1.IH" [OF True it [symmetric] Continue this] show ?thesis by (auto simp: offs)
    qed
  qed
qed

lemma ruuvi_while_eq_loop: "ruuvi_while data i = Some (ruuvi_loop data i)"
proof (induction data i rule: ruuvi_loop.induct)
  case (1 data i)
  show ?case
  proof (cases "i < length data")
    case False
    then show ?thesis by (subst ruuvi_while.simps) (simp add: ruuvi_loop_end)
  next
    case True
    obtain lg st where it: "ruuvi_iter data i = (lg, st)" by (cases "ruuvi_iter data i")
    show ?thesis
    proof (cases st)
      case Continue
      from "1.IH" [OF True it [symmetric] Continue]
      have "ruuvi_while data (next_offset data i) = Some (ruuvi_loop data (next_offset data i))" .
      with True it Continue show ?thesis
        by (subst ruuvi_while.simps) (simp add: ruuvi_loop_step split: prod.splits)
    next
      case (Return s)
      with True it show ?thesis by (subst ruuvi_while.simps) (simp add: ruuvi_loop_step)
    next
      case (Raise e)
      with True it show ?thesis by (subst ruuvi_while.simps) (simp add: ruuvi_loop_step)
    qed
  qed
qed

lemma py_index_drop: "py_index (drop k xs) j = py_index xs (k + j)"
  by (auto simp: py_index_def)

lemma overrun_ad_value: "overruns data i \<Longrightarrow> ad_value data i = drop (i + 2) data"
  by (simp add: overruns_def next_offset_def ad_value_def)

lemma from_bytes_big_two: "from_bytes_big [a, b] = unat a * 256 + unat b"
  by (simp add: from_bytes_big_def)

lemma parse_trace_head:
  "\<exists>lg. snd (parse_ruuvi_data self data) = ParsingData data # lg"
  by (simp add: parse_ruuvi_data_def split: prod.splits sum.splits option.splits)

lemma qstr_hash_temperature: "qstr_compute_hash ''temperature'' = 57065"
  by (simp add: qstr_compute_hash_def)

lemma qstr_hash_humidity: "qstr_compute_hash ''humidity'' = 44924"
  by (simp add: qstr_compute_hash_def)

lemma qstr_hash_pressure: "qstr_compute_hash ''pressure'' = 24000"
  by (simp add: qstr_compute_hash_def)

lemma three_slots: "replicate (length [a, b, c]) None = [None, None, None]"
  by simp

lemma store_temperature:
  "mp_map_store qstr_compute_hash [None, None, None] (''temperature'', t) =
     [None, None, Some (''temperature'', t)]"
proof -
  have l: "length [None, None, None :: (string \<times> 'a) option] = Suc (Suc (Suc 0))" by simp
  have m: "57065 mod Suc (Suc (Suc 0)) = Suc (Suc 0)" by (simp only: numeral_3_eq_3 [symmetric] numeral_2_eq_2 [symmetric]) simp
  show ?thesis
    unfolding mp_map_store_def fst_conv qstr_hash_temperature l m by simp
qed

lemma store_humidity:
  "mp_map_store qstr_compute_hash [None, None, Some x] (''humidity'', h) =
     [Some (''humidity'', h), None, Some x]" if "fst x \<noteq> ''humidity''"
proof -
  have l: "length [None, None, Some x] = Suc (Suc (Suc 0))" by simp
  have m: "44924 mod Suc (Suc (Suc 0)) = Suc (Suc 0)" by (simp only: numeral_3_eq_3 [symmetric] numeral_2_eq_2 [symmetric]) simp
  show ?thesis
    unfolding mp_map_store_def fst_conv qstr_hash_humidity l m using that by simp
qed

lemma store_pressure:
  "mp_map_store qstr_compute_hash [Some y, None, Some x] (''pressure'', p) =
     [Some y, Some (''pressure'', p), Some x]" if "fst y \<noteq> ''pressure''"
proof -
  have l: "length [Some y, None, Some x] = Suc (Suc (Suc 0))" by simp
  have m: "24000 mod Suc (Suc (Suc 0)) = 0" by (simp only: numeral_3_eq_3 [symmetric]) simp
  show ?thesis
    unfolding mp_map_store_def fst_conv qstr_hash_pressure l m using that by simp
qed

lemma dict_literal_three:
  "dict_literal [(''temperature'', t), (''humidity'', h), (''pressure'', p)] =
     [(''humidity'', h), (''pressure'', p), (''temperature'', t)]"
  unfolding dict_literal_def three_slots
  by (simp add: store_temperature store_humidity store_pressure)

lemma response_items:
  "response scanner =
     [(''humidity'', case latest_data scanner of Some d \<Rightarrow> Some (humidity d) | None \<Rightarrow> None),
      (''pressure'', case latest_data scanner of Some d \<Rightarrow> Some (pressure d) | None \<Rightarrow> None),
      (''temperature'', case latest_data scanner of Some d \<Rightarrow> Some (temperature d) | None \<Rightarrow> None)]"
  unfolding response_def by (rule dict_literal_three)

lemma response_None:
  "latest_data scanner = None \<Longrightarrow>
   response scanner = [(''humidity'', None), (''pressure'', None), (''temperature'', None)]"
  by (simp add: response_items)

lemma json_null:
  \<open>json_dumps float_repr [(''humidity'', None), (''pressure'', None), (''temperature'', None)] =
     ''{"humidity": null, "pressure": null, "temperature": null}''\<close>
  by (simp add: json_dumps_def json_item_def)

lemma str_nat_57: "str_nat 57 = ''57''"
proof -
  have "str_nat 5 = ''5''" by (subst str_nat.simps) simp
  moreover have "str_nat 57 = str_nat 5 @ ''7''" by (subst str_nat.simps) simp
  ultimately show ?thesis by simp
qed

lemma lower_char_hex_digit: "lower_char (hex_digit n) = hex_digit n"
proof -
  define k where "k = n mod 16"
  then have "k < 16" by simp
  then have "k = 0 \<or> k = 1 \<or> k = 2 \<or> k = 3 \<or> k = 4 \<or> k = 5 \<or> k = 6 \<or> k = 7
      \<or> k = 8 \<or> k = 9 \<or> k = 10 \<or> k = 11 \<or> k = 12 \<or> k = 13 \<or> k = 14 \<or> k = 15"
    by arith
  then have "lower_char (''0123456789abcdef'' ! k) = ''0123456789abcdef'' ! k"
    by (elim disjE) (simp_all add: lower_char_def)
  then show ?thesis by (simp add: hex_digit_def k_def)
qed

lemma lower_join_hex: "lower (join '':'' (map fmt_02x bs)) = join '':'' (map fmt_02x bs)"
proof (induction bs rule: induct_list012)
  case 1
  show ?case by (simp add: lower_def)
next
  case (2 b)
  show ?case by (simp add: lower_def fmt_02x_def lower_char_hex_digit)
next
  case (3 b c bs)
  have "lower_char CHR '':'' = CHR '':''" by (simp add: lower_char_def)
  with 3(2) show ?case by (simp add: lower_def fmt_02x_def lower_char_hex_digit)
qed

section \<open>The claims\<close>

subsection \<open>C1: the sign of the temperature\<close>

text \<open>
  C1 says that the raw big-endian 16-bit temperature is read as two's complement before
  it is scaled, so that raw 0xFF9C decodes to (0xFF9C - 65536) * 0.005 = -0.5. The source
  scales first and compares the scaled value with 32767 (lines 63 to 66); a scaled value
  is at most 327.675 (\<open>format5_temperature_unsigned\<close>), so the subtraction never
  happens. For the payload with a flags structure and a format 5 structure of raw
  temperature 0xFF9C, humidity 0x1770 and pressure 0x4E20, the stored temperature is
  327.18, not -0.5.
\<close>

theorem temperature_not_sign_corrected:
  "fst (parse_ruuvi_data self
      [0x02, 0x01, 0x06, 0x0A, 0xFF, 0x99, 0x04, 0x05, 0xFF, 0x9C, 0x17, 0x70, 0x4E, 0x20]) =
     self\<lparr>latest_data := Some \<lparr>temperature = 327.18, humidity = 15, pressure = 700\<rparr>,
          data_received := True\<rparr>
   \<and> (327.18 :: real) \<noteq> (0xFF9C - 65536) * 0.005"
  by (simp add: parse_ruuvi_data_def ruuvi_loop.simps ruuvi_iter_def next_offset_def py_index_def
      RUUVI_DATA_FORMAT_def format5_def py_slice_def from_bytes_big_def Let_def)

subsection \<open>C2: a structure that runs past the end of the payload\<close>

text \<open>
  C2 as stated, that a structure whose length byte points past the end of the payload
  ends the scan with a failure and yields no sample, does not hold: the payload
  1F FF 99 04 05 01 39 declares 31 bytes and holds 5 value bytes, and a sample is stored
  from the bytes present, the missing fields reading as raw 0.
\<close>

theorem overrun_sample_counterexample:
  "overruns [0x1F, 0xFF, 0x99, 0x04, 0x05, 0x01, 0x39] 0
   \<and> parse_ruuvi_data \<lparr>latest_data = None, data_received = False\<rparr>
        [0x1F, 0xFF, 0x99, 0x04, 0x05, 0x01, 0x39] =
       (\<lparr>latest_data = Some \<lparr>temperature = 1.565, humidity = 0, pressure = 500\<rparr>,
         data_received = True\<rparr>,
        [ParsingData [0x1F, 0xFF, 0x99, 0x04, 0x05, 0x01, 0x39], FoundMfgData, FoundFormat5,
         ParsedData \<lparr>temperature = 1.565, humidity = 0, pressure = 500\<rparr>])"
  by (simp add: overruns_def parse_ruuvi_data_def ruuvi_loop.simps ruuvi_iter_def next_offset_def
      py_index_def RUUVI_DATA_FORMAT_def format5_def py_slice_def from_bytes_big_def Let_def)

text \<open>
  C2 as amended: when the loop reaches a structure that runs past the end of the payload,
  the value it reads is the bytes present, nothing beyond the end, and the walk ends with
  this structure. The structure yields a sample exactly when it is manufacturer data with
  the vendor ID whose third value byte is present and equal to 5, decoded from the bytes
  present; with the vendor ID and no third byte the read of the format byte raises
  IndexError, which the method catches; in every other case the loop ends with no sample.
\<close>

theorem overrun_ends_walk:
  assumes "i < length data" and "overruns data i"
  shows "ad_value data i = drop (i + 2) data
    \<and> ruuvi_loop data i =
        (if ruuvi_vendor data i then
           if length data \<le> i + 4 then ([FoundMfgData], Inl IndexError)
           else if data ! (i + 4) = 5 then
             ([FoundMfgData, FoundFormat5, ParsedData (format5 (drop (i + 2) data))],
              Inr (Some (format5 (drop (i + 2) data))))
           else ([FoundMfgData], Inr None)
         else ([], Inr None))"
proof -
  from assms(2) have v: "ad_value data i = drop (i + 2) data" by (rule overrun_ad_value)
  from assms(2) have e: "ruuvi_loop data (next_offset data i) = ([], Inr None)"
    by (simp add: overruns_def ruuvi_loop_end)
  have idx: "py_index (ad_value data i) 2 =
      (if length data \<le> i + 4 then Inl IndexError else Inr (data ! (i + 4)))"
  proof -
    have "i + 2 + 2 = i + 4" by arith
    then have "py_index (ad_value data i) 2 = py_index data (i + 4)"
      unfolding v py_index_drop by (rule arg_cong)
    also have "\<dots> = (if length data \<le> i + 4 then Inl IndexError else Inr (data ! (i + 4)))"
      by (auto simp: py_index_def)
    finally show ?thesis .
  qed
  have "ruuvi_loop data i =
        (if ruuvi_vendor data i then
           if length data \<le> i + 4 then ([FoundMfgData], Inl IndexError)
           else if data ! (i + 4) = 5 then
             ([FoundMfgData, FoundFormat5, ParsedData (format5 (drop (i + 2) data))],
              Inr (Some (format5 (drop (i + 2) data))))
           else ([FoundMfgData], Inr None)
         else ([], Inr None))"
    using assms(1) e by (simp add: ruuvi_loop_step ruuvi_iter_vendor idx) (simp add: v)
  with v show ?thesis by simp
qed

theorem overrun_ends_walk_witness:
  "ruuvi_loop [0x1F, 0xFF, 0x99, 0x04, 0x03, 0x01] 0 = ([FoundMfgData], Inr None)
   \<and> ruuvi_loop [0x1F, 0xFF, 0x99, 0x04] 0 = ([FoundMfgData], Inl IndexError)
   \<and> ruuvi_loop [0x1F, 0x09, 0x99, 0x04, 0x05, 0x01] 0 = ([], Inr None)"
proof -
  have a: "overruns [0x1F, 0xFF, 0x99, 0x04, 0x03, 0x01] 0"
    and b: "overruns [0x1F, 0xFF, 0x99, 0x04] 0"
    and c: "overruns [0x1F, 0x09, 0x99, 0x04, 0x05, 0x01] 0"
    by (simp_all add: overruns_def next_offset_def)
  show ?thesis
    using overrun_ends_walk [OF _ a] overrun_ends_walk [OF _ b] overrun_ends_walk [OF _ c]
    by (simp add: ruuvi_vendor_def ad_type_def)
qed

subsection \<open>C3: no exception leaves the method, and no vendor structure means not found\<close>

text \<open>
  C3: for every byte sequence given as payload, the empty one and those whose length
  byte exceeds the bytes that remain included, the method returns to its caller: it
  stores a sample, or leaves the scanner as it was and ends its trace with the line
  for no data found or with the line for a caught error. For every payload none of
  whose AD structures is manufacturer data with the vendor ID 0x99 0x04, the outcome is
  the not-found one, with no other line printed.
\<close>

theorem parse_never_raises_not_found:
  "((\<exists>s lg. parse_ruuvi_data self data =
        (self\<lparr>latest_data := Some s, data_received := True\<rparr>, ParsingData data # lg))
    \<or> (\<exists>lg. parse_ruuvi_data self data = (self, ParsingData data # lg @ [NoRuuviData]))
    \<or> (\<exists>lg. parse_ruuvi_data self data = (self, ParsingData data # lg @ [ErrorParsing IndexError])))
   \<and> ((\<forall>j \<in> set (ad_offsets data 0). \<not> ruuvi_vendor data j) \<longrightarrow>
        parse_ruuvi_data self data = (self, [ParsingData data, NoRuuviData]))"
proof
  obtain lg r where l: "ruuvi_loop data 0 = (lg, r)" by (cases "ruuvi_loop data 0")
  show "(\<exists>s lg. parse_ruuvi_data self data =
        (self\<lparr>latest_data := Some s, data_received := True\<rparr>, ParsingData data # lg))
    \<or> (\<exists>lg. parse_ruuvi_data self data = (self, ParsingData data # lg @ [NoRuuviData]))
    \<or> (\<exists>lg. parse_ruuvi_data self data = (self, ParsingData data # lg @ [ErrorParsing IndexError]))"
  proof (cases r)
    case (Inl e)
    then have "e = IndexError" by (cases e) simp
    with l Inl show ?thesis by (simp add: parse_ruuvi_data_def)
  next
    case (Inr found)
    with l show ?thesis by (cases found) (auto simp: parse_ruuvi_data_def)
  qed
next
  show "(\<forall>j \<in> set (ad_offsets data 0). \<not> ruuvi_vendor data j) \<longrightarrow>
        parse_ruuvi_data self data = (self, [ParsingData data, NoRuuviData])"
    by (simp add: parse_ruuvi_data_def ruuvi_loop_no_vendor)
qed

theorem parse_never_raises_not_found_witness:
  "parse_ruuvi_data \<lparr>latest_data = None, data_received = False\<rparr> [] =
     (\<lparr>latest_data = None, data_received = False\<rparr>, [ParsingData [], NoRuuviData])
   \<and> parse_ruuvi_data \<lparr>latest_data = None, data_received = False\<rparr> [0x05, 0x09, 0x41] =
     (\<lparr>latest_data = None, data_received = False\<rparr>, [ParsingData [0x05, 0x09, 0x41], NoRuuviData])
   \<and> parse_ruuvi_data \<lparr>latest_data = None, data_received = False\<rparr> [0x02, 0x01, 0x06, 0x02, 0xFF, 0x4C] =
     (\<lparr>latest_data = None, data_received = False\<rparr>,
      [ParsingData [0x02, 0x01, 0x06, 0x02, 0xFF, 0x4C], NoRuuviData])"
proof -
  have a: "\<forall>j \<in> set (ad_offsets ([] :: bytes) 0). \<not> ruuvi_vendor [] j"
    by (simp add: ad_offsets.simps)
  have b: "\<forall>j \<in> set (ad_offsets [0x05, 0x09, 0x41] 0). \<not> ruuvi_vendor [0x05, 0x09, 0x41] j"
    by (simp add: ad_offsets.simps next_offset_def ruuvi_vendor_def ad_type_def)
  have c: "\<forall>j \<in> set (ad_offsets [0x02, 0x01, 0x06, 0x02, 0xFF, 0x4C] 0).
      \<not> ruuvi_vendor [0x02, 0x01, 0x06, 0x02, 0xFF, 0x4C] j"
    by (simp add: ad_offsets.simps next_offset_def ruuvi_vendor_def ad_type_def ad_value_def)
  show ?thesis
    using a b c
      parse_never_raises_not_found [of "\<lparr>latest_data = None, data_received = False\<rparr>" "[]"]
      parse_never_raises_not_found [of "\<lparr>latest_data = None, data_received = False\<rparr>" "[0x05, 0x09, 0x41]"]
      parse_never_raises_not_found [of "\<lparr>latest_data = None, data_received = False\<rparr>"
        "[0x02, 0x01, 0x06, 0x02, 0xFF, 0x4C]"]
    by blast
qed

subsection \<open>C4: a payload that does not decode leaves the scanner as it was\<close>

text \<open>
  C4: whenever the loop over the payload of a packet does not return a sample, whether it
  ran to the end of the payload or raised, the method leaves both the stored sample and
  the flag of new data as they were, and so does the callback that was handed the packet.
\<close>

theorem failed_decode_keeps_state:
  assumes "\<forall>s. snd (ruuvi_loop (adv_data data) 0) \<noteq> Inr (Some s)"
  shows "fst (parse_ruuvi_data self (adv_data data)) = self
    \<and> fst (ble_irq RUUVI_MAC self event data) = self"
proof -
  obtain lg r where l: "ruuvi_loop (adv_data data) 0 = (lg, r)"
    by (cases "ruuvi_loop (adv_data data) 0")
  with assms have "\<forall>s. r \<noteq> Inr (Some s)" by simp
  with l have p: "fst (parse_ruuvi_data self (adv_data data)) = self"
    by (cases r) (auto simp: parse_ruuvi_data_def split: option.splits)
  then show ?thesis
    by (auto simp: ble_irq_def Let_def split: prod.splits)
qed

theorem failed_decode_keeps_state_witness:
  "fst (ble_irq ''aa:bb:cc:dd:ee:ff''
     \<lparr>latest_data = Some \<lparr>temperature = 21, humidity = 40, pressure = 1000\<rparr>, data_received = True\<rparr>
     IRQ_SCAN_RESULT
     \<lparr>addr_type = 1, addr = [0xAA, 0xBB, 0xCC, 0xDD, 0xEE, 0xFF], adv_type = 0, rssi = -60,
      adv_data = [0x03, 0xFF, 0x99, 0x04]\<rparr>) =
   \<lparr>latest_data = Some \<lparr>temperature = 21, humidity = 40, pressure = 1000\<rparr>, data_received = True\<rparr>"
proof -
  have h: "\<forall>s. snd (ruuvi_loop (adv_data \<lparr>addr_type = 1, addr = [0xAA, 0xBB, 0xCC, 0xDD, 0xEE, 0xFF],
      adv_type = 0, rssi = -60, adv_data = [0x03, 0xFF, 0x99, 0x04]\<rparr>) 0) \<noteq> Inr (Some s)"
    by (simp add: ruuvi_loop.simps ruuvi_iter_def py_slice_def py_index_def Let_def)
  from failed_decode_keeps_state [OF h] show ?thesis by blast
qed

subsection \<open>C5: a vendor structure whose format is not 5\<close>

text \<open>
  C5 as stated, that a vendor structure with a format byte other than 5 makes the decoding
  of the payload a failure, does not hold: in the payload below the first structure has
  the vendor ID and format 3, the second one format 5, and the method stores the sample of
  the second.
\<close>

theorem unsupported_format_counterexample:
  "ruuvi_vendor [0x04, 0xFF, 0x99, 0x04, 0x03,
                 0x0A, 0xFF, 0x99, 0x04, 0x05, 0x01, 0x39, 0x17, 0x70, 0x4E, 0x20] 0
   \<and> py_index (ad_value [0x04, 0xFF, 0x99, 0x04, 0x03,
                 0x0A, 0xFF, 0x99, 0x04, 0x05, 0x01, 0x39, 0x17, 0x70, 0x4E, 0x20] 0) 2 = Inr 3
   \<and> fst (parse_ruuvi_data \<lparr>latest_data = None, data_received = False\<rparr>
        [0x04, 0xFF, 0x99, 0x04, 0x03,
         0x0A, 0xFF, 0x99, 0x04, 0x05, 0x01, 0x39, 0x17, 0x70, 0x4E, 0x20]) =
       \<lparr>latest_data = Some \<lparr>temperature = 1.565, humidity = 15, pressure = 700\<rparr>,
        data_received = True\<rparr>"
  by (simp add: ruuvi_vendor_def ad_type_def ad_value_def parse_ruuvi_data_def ruuvi_loop.simps
      ruuvi_iter_def next_offset_def py_index_def RUUVI_DATA_FORMAT_def format5_def py_slice_def
      from_bytes_big_def Let_def)

text \<open>
  C5 as amended: when the loop reaches a vendor structure whose format byte is present
  and differs from 5, no sample is produced from it; the pass prints that manufacturer
  data was found and falls through to the next structure, and the loop ends as the rest
  of the payload makes it end.
\<close>

theorem unsupported_format_skipped:
  assumes "i < length data" and "ruuvi_vendor data i"
    and "py_index (ad_value data i) 2 = Inr fmt" and "fmt \<noteq> 5"
  shows "ruuvi_iter data i = ([FoundMfgData], Continue)
    \<and> ruuvi_loop data i =
        (FoundMfgData # fst (ruuvi_loop data (next_offset data i)),
         snd (ruuvi_loop data (next_offset data i)))"
proof -
  from assms(2-4) have it: "ruuvi_iter data i = ([FoundMfgData], Continue)"
    by (simp add: ruuvi_iter_vendor)
  with assms(1) show ?thesis
    by (simp add: ruuvi_loop_step split: prod.splits)
qed

theorem unsupported_format_skipped_witness:
  "ruuvi_loop [0x04, 0xFF, 0x99, 0x04, 0x03, 0x02, 0x01, 0x06] 0 = ([FoundMfgData], Inr None)"
proof -
  have v: "ruuvi_vendor [0x04, 0xFF, 0x99, 0x04, 0x03, 0x02, 0x01, 0x06] 0"
    by (simp add: ruuvi_vendor_def ad_type_def ad_value_def)
  have f: "py_index (ad_value [0x04, 0xFF, 0x99, 0x04, 0x03, 0x02, 0x01, 0x06] 0) 2 = Inr 3"
    by (simp add: ad_value_def py_index_def)
  have r: "ruuvi_loop [0x04, 0xFF, 0x99, 0x04, 0x03, 0x02, 0x01, 0x06]
      (next_offset [0x04, 0xFF, 0x99, 0x04, 0x03, 0x02, 0x01, 0x06] 0) = ([], Inr None)"
    by (simp add: ruuvi_loop.simps ruuvi_iter_def next_offset_def)
  from unsupported_format_skipped [OF _ v f] r show ?thesis by simp
qed

subsection \<open>C6: the response while no sample is stored\<close>

text \<open>
  C6 as stated, that the body sent while no sample is stored is exactly the text with the
  keys in the order temperature, humidity, pressure, does not hold: the dictionary is
  printed in the order of its slots, which for these three keys is humidity, pressure,
  temperature.
\<close>

theorem response_key_order_counterexample:
  \<open>json_dumps (\<lambda>x. ''0.0'') (response \<lparr>latest_data = None, data_received = False\<rparr>) =
     ''{"humidity": null, "pressure": null, "temperature": null}''
   \<and> json_dumps (\<lambda>x. ''0.0'') (response \<lparr>latest_data = None, data_received = False\<rparr>) \<noteq>
     ''{"temperature": null, "humidity": null, "pressure": null}''\<close>
  by (simp add: response_None json_null)

text \<open>
  C6 as amended: a request served while no sample has been stored is answered with a body
  that holds the three keys temperature, humidity and pressure, each with null and
  nothing else, written in the order of the slots of the dictionary: humidity, pressure,
  temperature. The three fields of a response are null together or present together; and
  every text sent starts with the status line HTTP/1.0 200 OK and ends, after the empty
  line, with the body.
\<close>

theorem response_all_null_without_sample:
  \<open>(latest_data scanner = None \<longrightarrow>
      set (response scanner) =
        {(''temperature'', None), (''humidity'', None), (''pressure'', None)}
    \<and> length (response scanner) = 3
    \<and> json_dumps float_repr (response scanner) =
        ''{"humidity": null, "pressure": null, "temperature": null}''
    \<and> fst (serve float_repr scanner IoOk) =
        Some (''HTTP/1.0 200 OK'' @ crlf @
              ''Content-Type: application/json'' @ crlf @
              ''Content-Length: 57'' @ crlf @
              ''Access-Control-Allow-Origin: *'' @ crlf @ crlf @
              ''{"humidity": null, "pressure": null, "temperature": null}''))
   \<and> ((\<forall>kv \<in> set (response scanner). snd kv = None)
      \<or> (\<forall>kv \<in> set (response scanner). snd kv \<noteq> None))
   \<and> (\<forall>sent. fst (serve float_repr scanner io) = Some sent \<longrightarrow>
        (\<exists>headers. sent = ''HTTP/1.0 200 OK'' @ crlf @ headers @ crlf @ crlf @
           json_dumps float_repr (response scanner)))\<close>
proof (intro conjI impI allI)
  assume n: "latest_data scanner = None"
  show "set (response scanner) =
        {(''temperature'', None), (''humidity'', None), (''pressure'', None)}"
    unfolding response_None [OF n] by auto
  show "length (response scanner) = 3"
    unfolding response_None [OF n] by simp
  show j: \<open>json_dumps float_repr (response scanner) =
        ''{"humidity": null, "pressure": null, "temperature": null}''\<close>
    by (simp only: response_None [OF n] json_null)
  have len: \<open>length ''{"humidity": null, "pressure": null, "temperature": null}'' = 57\<close>
    by simp
  show \<open>fst (serve float_repr scanner IoOk) =
        Some (''HTTP/1.0 200 OK'' @ crlf @
              ''Content-Type: application/json'' @ crlf @
              ''Content-Length: 57'' @ crlf @
              ''Access-Control-Allow-Origin: *'' @ crlf @ crlf @
              ''{"humidity": null, "pressure": null, "temperature": null}'')\<close>
    by (simp only: serve_def socket_io.case fst_conv response_str_def Let_def j len str_nat_57)
      simp
next
  show "(\<forall>kv \<in> set (response scanner). snd kv = None)
      \<or> (\<forall>kv \<in> set (response scanner). snd kv \<noteq> None)"
    by (cases "latest_data scanner") (simp_all add: response_items)
next
  fix sent
  assume "fst (serve float_repr scanner io) = Some sent"
  then have "sent = response_str float_repr scanner"
    by (cases io) (simp_all add: serve_def)
  then show "\<exists>headers. sent = ''HTTP/1.0 200 OK'' @ crlf @ headers @ crlf @ crlf @
           json_dumps float_repr (response scanner)"
    by (simp add: response_str_def Let_def)
qed

theorem response_all_null_without_sample_witness:
  \<open>json_dumps (\<lambda>x. ''0.0'') (response \<lparr>latest_data = None, data_received = False\<rparr>) =
     ''{"humidity": null, "pressure": null, "temperature": null}''
   \<and> length (response \<lparr>latest_data = None, data_received = False\<rparr>) = 3\<close>
  using response_all_null_without_sample
    [of "\<lparr>latest_data = None, data_received = False\<rparr>" "\<lambda>x. ''0.0''" IoOk]
  by simp

subsection \<open>C7: what serving a request writes\<close>

text \<open>
  C7: serving a client clears the flag of new data and leaves the stored sample as it
  was; whatever the socket calls do, a pass of the server loop leaves the scanner as it
  was or differs from it in that flag alone.
\<close>

theorem serve_only_clears_flag:
  "data_received (snd (serve float_repr scanner IoOk)) = False
   \<and> latest_data (snd (serve float_repr scanner io)) = latest_data scanner
   \<and> (snd (serve float_repr scanner io) = scanner
      \<or> snd (serve float_repr scanner io) = scanner\<lparr>data_received := False\<rparr>)"
  by (cases io) (simp_all add: serve_def)

theorem serve_only_clears_flag_witness:
  "snd (serve (\<lambda>x. ''21.0'')
     \<lparr>latest_data = Some \<lparr>temperature = 21, humidity = 40, pressure = 1000\<rparr>, data_received = True\<rparr>
     IoOk) =
   \<lparr>latest_data = Some \<lparr>temperature = 21, humidity = 40, pressure = 1000\<rparr>, data_received = False\<rparr>"
  using serve_only_clears_flag [of "\<lambda>x. ''21.0''"
     "\<lparr>latest_data = Some \<lparr>temperature = 21, humidity = 40, pressure = 1000\<rparr>, data_received = True\<rparr>"
     IoOk]
  by (simp add: serve_def)

subsection \<open>C8: humidity and pressure\<close>

text \<open>
  C8: a sample returned by the loop comes from a vendor structure of format 5 of the
  payload; its humidity is the big-endian unsigned value of bytes [5:7] of the
  manufacturer data times 0.0025 and its pressure is the value of bytes [7:9] plus 50000,
  divided by 100. With all nine bytes present these are the two-byte values. In the
  fixture, raw humidity 0x1770 gives 15 and raw pressure 0x4E20 gives 700.
\<close>

theorem format5_humidity_pressure:
  assumes "snd (ruuvi_loop data i) = Inr (Some s)"
  shows "\<exists>j \<in> set (ad_offsets data i).
           ruuvi_vendor data j \<and> py_index (ad_value data j) 2 = Inr 5
         \<and> humidity s = real (from_bytes_big (py_slice (ad_value data j) 5 7)) * 0.0025
         \<and> pressure s = real (from_bytes_big (py_slice (ad_value data j) 7 9) + 50000) / 100
         \<and> (9 \<le> length (ad_value data j) \<longrightarrow>
              humidity s =
                real (unat (ad_value data j ! 5) * 256 + unat (ad_value data j ! 6)) * 0.0025
            \<and> pressure s =
                real (unat (ad_value data j ! 7) * 256 + unat (ad_value data j ! 8) + 50000) / 100)"
proof -
  from ruuvi_loop_sample [OF assms] obtain j where j: "j \<in> set (ad_offsets data i)"
    and v: "ruuvi_vendor data j" and f: "py_index (ad_value data j) 2 = Inr 5"
    and s: "s = format5 (ad_value data j)" by blast
  let ?m = "ad_value data j"
  have h: "humidity s = real (from_bytes_big (py_slice ?m 5 7)) * 0.0025"
    and p: "pressure s = real (from_bytes_big (py_slice ?m 7 9) + 50000) / 100"
    by (simp_all add: s format5_def Let_def)
  have full: "py_slice ?m 5 7 = [?m ! 5, ?m ! 6] \<and> py_slice ?m 7 9 = [?m ! 7, ?m ! 8]"
    if "9 \<le> length ?m"
  proof -
    from that have "drop 5 ?m = ?m ! 5 # ?m ! 6 # drop 7 ?m"
      by (simp add: Cons_nth_drop_Suc [symmetric])
    moreover from that have "drop 7 ?m = ?m ! 7 # ?m ! 8 # drop 9 ?m"
      by (simp add: Cons_nth_drop_Suc [symmetric])
    ultimately show ?thesis by (simp add: py_slice_def)
  qed
  from j v f h p full show ?thesis
    by (intro bexI [of _ j]) (simp_all add: from_bytes_big_two)
qed

theorem format5_humidity_pressure_witness:
  "snd (ruuvi_loop
      [0x02, 0x01, 0x06, 0x0A, 0xFF, 0x99, 0x04, 0x05, 0x01, 0x39, 0x17, 0x70, 0x4E, 0x20] 0) =
      Inr (Some \<lparr>temperature = 1.565, humidity = 15, pressure = 700\<rparr>)
   \<and> (\<exists>j \<in> set (ad_offsets
       [0x02, 0x01, 0x06, 0x0A, 0xFF, 0x99, 0x04, 0x05, 0x01, 0x39, 0x17, 0x70, 0x4E, 0x20] 0).
     (15 :: real) = real (from_bytes_big (py_slice (ad_value
       [0x02, 0x01, 0x06, 0x0A, 0xFF, 0x99, 0x04, 0x05, 0x01, 0x39, 0x17, 0x70, 0x4E, 0x20] j) 5 7))
         * 0.0025
   \<and> (700 :: real) = real (from_bytes_big (py_slice (ad_value
       [0x02, 0x01, 0x06, 0x0A, 0xFF, 0x99, 0x04, 0x05, 0x01, 0x39, 0x17, 0x70, 0x4E, 0x20] j) 7 9)
         + 50000) / 100)"
proof -
  have r: "snd (ruuvi_loop
      [0x02, 0x01, 0x06, 0x0A, 0xFF, 0x99, 0x04, 0x05, 0x01, 0x39, 0x17, 0x70, 0x4E, 0x20] 0) =
      Inr (Some \<lparr>temperature = 1.565, humidity = 15, pressure = 700\<rparr>)"
    by (simp add: ruuvi_loop.simps ruuvi_iter_def next_offset_def py_index_def
        RUUVI_DATA_FORMAT_def format5_def py_slice_def from_bytes_big_def Let_def)
  from format5_humidity_pressure [OF r] have "\<exists>j \<in> set (ad_offsets
       [0x02, 0x01, 0x06, 0x0A, 0xFF, 0x99, 0x04, 0x05, 0x01, 0x39, 0x17, 0x70, 0x4E, 0x20] 0).
     (15 :: real) = real (from_bytes_big (py_slice (ad_value
       [0x02, 0x01, 0x06, 0x0A, 0xFF, 0x99, 0x04, 0x05, 0x01, 0x39, 0x17, 0x70, 0x4E, 0x20] j) 5 7))
         * 0.0025
   \<and> (700 :: real) = real (from_bytes_big (py_slice (ad_value
       [0x02, 0x01, 0x06, 0x0A, 0xFF, 0x99, 0x04, 0x05, 0x01, 0x39, 0x17, 0x70, 0x4E, 0x20] j) 7 9)
         + 50000) / 100"
    by auto
  with r show ?thesis by (intro conjI)
qed

subsection \<open>C9: the address filter\<close>

text \<open>
  C9: on a scan result the payload is handed to \<^verbatim>\<open>parse_ruuvi_data\<close> if and only if the
  address, written as colon-separated hexadecimal, equals the configured address after
  both are put in lower case; a packet that matches is processed as the method
  processes its payload, and a packet that does not match leaves the scanner as it was
  and prints nothing. The written address has no capital letter, so the comparison is
  with the configured address in lower case.
\<close>

theorem ble_irq_address_filter:
  "(ParsingData (adv_data data) \<in> set (snd (ble_irq RUUVI_MAC self IRQ_SCAN_RESULT data)))
     = (lower (join '':'' (map fmt_02x (addr data))) = lower RUUVI_MAC)
   \<and> (lower (join '':'' (map fmt_02x (addr data))) = lower RUUVI_MAC \<longrightarrow>
        ble_irq RUUVI_MAC self IRQ_SCAN_RESULT data =
          (fst (parse_ruuvi_data self (adv_data data)),
           FoundRuuviTag (adv_data data) # snd (parse_ruuvi_data self (adv_data data))))
   \<and> (lower (join '':'' (map fmt_02x (addr data))) \<noteq> lower RUUVI_MAC \<longrightarrow>
        ble_irq RUUVI_MAC self IRQ_SCAN_RESULT data = (self, []))
   \<and> lower (join '':'' (map fmt_02x (addr data))) = join '':'' (map fmt_02x (addr data))"
proof -
  obtain lg where "snd (parse_ruuvi_data self (adv_data data)) = ParsingData (adv_data data) # lg"
    using parse_trace_head by blast
  then have "(ParsingData (adv_data data) \<in> set (snd (ble_irq RUUVI_MAC self IRQ_SCAN_RESULT data)))
     = (lower (join '':'' (map fmt_02x (addr data))) = lower RUUVI_MAC)"
    by (auto simp: ble_irq_def Let_def split: prod.splits)
  moreover have "lower (join '':'' (map fmt_02x (addr data))) = lower RUUVI_MAC \<longrightarrow>
        ble_irq RUUVI_MAC self IRQ_SCAN_RESULT data =
          (fst (parse_ruuvi_data self (adv_data data)),
           FoundRuuviTag (adv_data data) # snd (parse_ruuvi_data self (adv_data data)))"
    by (simp add: ble_irq_def Let_def split: prod.splits)
  moreover have "lower (join '':'' (map fmt_02x (addr data))) \<noteq> lower RUUVI_MAC \<longrightarrow>
        ble_irq RUUVI_MAC self IRQ_SCAN_RESULT data = (self, [])"
    by (simp add: ble_irq_def Let_def)
  ultimately show ?thesis using lower_join_hex [of "addr data"] by (intro conjI)
qed

theorem ble_irq_address_filter_witness:
  "ParsingData [0x02, 0x01, 0x06] \<in> set (snd (ble_irq ''AA:BB:CC:DD:EE:FF''
      \<lparr>latest_data = None, data_received = False\<rparr> IRQ_SCAN_RESULT
      \<lparr>addr_type = 1, addr = [0xAA, 0xBB, 0xCC, 0xDD, 0xEE, 0xFF], adv_type = 0, rssi = -60,
       adv_data = [0x02, 0x01, 0x06]\<rparr>))
   \<and> ParsingData [0x02, 0x01, 0x06] \<in> set (snd (ble_irq ''aa:bb:cc:dd:ee:ff''
      \<lparr>latest_data = None, data_received = False\<rparr> IRQ_SCAN_RESULT
      \<lparr>addr_type = 1, addr = [0xAA, 0xBB, 0xCC, 0xDD, 0xEE, 0xFF], adv_type = 0, rssi = -60,
       adv_data = [0x02, 0x01, 0x06]\<rparr>))
   \<and> ble_irq ''aa:bb:cc:dd:ee:ff''
      \<lparr>latest_data = None, data_received = False\<rparr> IRQ_SCAN_RESULT
      \<lparr>addr_type = 1, addr = [0xAA, 0xBB, 0xCC, 0xDD, 0xEE, 0x0F], adv_type = 0, rssi = -60,
       adv_data = [0x02, 0x01, 0x06]\<rparr> = (\<lparr>latest_data = None, data_received = False\<rparr>, [])"
proof -
  have a: "join '':'' (map fmt_02x [0xAA, 0xBB, 0xCC, 0xDD, 0xEE, 0xFF]) = ''aa:bb:cc:dd:ee:ff''"
    by (simp add: fmt_02x_def hex_digit_def)
  have b: "join '':'' (map fmt_02x [0xAA, 0xBB, 0xCC, 0xDD, 0xEE, 0x0F]) = ''aa:bb:cc:dd:ee:0f''"
    by (simp add: fmt_02x_def hex_digit_def)
  have l1: "lower ''AA:BB:CC:DD:EE:FF'' = ''aa:bb:cc:dd:ee:ff''"
    by (simp add: lower_def lower_char_def)
  have l2: "lower ''aa:bb:cc:dd:ee:ff'' = ''aa:bb:cc:dd:ee:ff''"
    by (simp add: lower_def lower_char_def)
  have l3: "lower ''aa:bb:cc:dd:ee:0f'' = ''aa:bb:cc:dd:ee:0f''"
    by (simp add: lower_def lower_char_def)
  let ?self = "\<lparr>latest_data = None, data_received = False\<rparr>"
  let ?near = "\<lparr>addr_type = 1, addr = [0xAA, 0xBB, 0xCC, 0xDD, 0xEE, 0xFF], adv_type = 0,
      rssi = -60, adv_data = [0x02, 0x01, 0x06]\<rparr>"
  let ?other = "\<lparr>addr_type = 1, addr = [0xAA, 0xBB, 0xCC, 0xDD, 0xEE, 0x0F], adv_type = 0,
      rssi = -60, adv_data = [0x02, 0x01, 0x06]\<rparr>"
  have "ParsingData [0x02, 0x01, 0x06] \<in>
      set (snd (ble_irq ''AA:BB:CC:DD:EE:FF'' ?self IRQ_SCAN_RESULT ?near))"
    using ble_irq_address_filter
      [where data = ?near and RUUVI_MAC = "''AA:BB:CC:DD:EE:FF''" and self = ?self, THEN conjunct1]
    by (simp only: scan_result.simps a b l1 l2 l3)
  moreover have "ParsingData [0x02, 0x01, 0x06] \<in>
      set (snd (ble_irq ''aa:bb:cc:dd:ee:ff'' ?self IRQ_SCAN_RESULT ?near))"
    using ble_irq_address_filter
      [where data = ?near and RUUVI_MAC = "''aa:bb:cc:dd:ee:ff''" and self = ?self, THEN conjunct1]
    by (simp only: scan_result.simps a b l1 l2 l3)
  moreover have "ble_irq ''aa:bb:cc:dd:ee:ff'' ?self IRQ_SCAN_RESULT ?other = (?self, [])"
    using ble_irq_address_filter
      [where data = ?other and RUUVI_MAC = "''aa:bb:cc:dd:ee:ff''" and self = ?self,
        THEN conjunct2, THEN conjunct2, THEN conjunct1]
    by (simp only: scan_result.simps a b l1 l2 l3) simp
  ultimately show ?thesis by (intro conjI)
qed

subsection \<open>C10: the walk terminates\<close>

text \<open>
  C10: the loop, defined with nothing assumed about its termination, returns for every
  payload and every offset, with the result of \<open>ruuvi_loop\<close>; on each pass the offset
  grows by the length byte plus one, at least one, so the distance to the end of the
  payload shrinks.
\<close>

theorem ruuvi_while_terminates:
  "ruuvi_while data i = Some (ruuvi_loop data i)
   \<and> (i < length data \<longrightarrow>
        next_offset data i = i + unat (data ! i) + 1 \<and> i < next_offset data i
        \<and> length data - next_offset data i < length data - i)"
  by (auto simp: ruuvi_while_eq_loop next_offset_def)

theorem ruuvi_while_terminates_witness:
  "ruuvi_while [0x00, 0x00, 0x00] 0 = Some ([], Inr None)
   \<and> next_offset [0x00, 0x00, 0x00] 0 = 1"
  using ruuvi_while_terminates [of "[0x00, 0x00, 0x00]" 0]
  by (simp add: ruuvi_loop.simps ruuvi_iter_def next_offset_def)

end
